theory Spec2Isabelle
  imports Main
begin

section \<open>The restify server core (lib/server.js)\<close>

text \<open>
  A shallow embedding of the request router of lib/server.js: handler chain
  construction (\<open>argsToChain\<close>), the registration surface (\<open>use\<close>, \<open>pre\<close>,
  \<open>_addRoute\<close>, \<open>rm\<close>), the \<open>acceptable\<close> getter, route resolution
  (\<open>_findRoute\<close>) with its three default responders, and the dispatcher
  (\<open>_request\<close>).

  lib/route.js, lib/request.js, lib/response.js and lib/errors.js are not among the
  sources. The three match predicates of a Route, its \<open>use\<close> and what its
  constructor refuses are parameters wherever the server calls them; the model
  stops where \<open>route.run\<close> is called; a response records the calls the server
  makes on it.
\<close>

subsection \<open>JavaScript values and errors\<close>

text \<open>
  The values a caller can pass where a handler is expected. \<open>'f\<close> is the type of
  handler functions; an array may nest arrays.
\<close>

datatype 'f jsval =
    Func 'f
  | Arr "'f jsval list"
  | Num int
  | Str string
  | Bool bool
  | Undefined
  | Null

datatype error =
    TypeError string
  | Error string
  | PatternError string

text \<open>The \<open>typeof\<close> operator: always one of six non-empty strings.\<close>

fun typeof :: "'f jsval \<Rightarrow> string" where
  "typeof (Func f) = ''function''"
| "typeof (Arr a) = ''object''"
| "typeof (Num n) = ''number''"
| "typeof (Str s) = ''string''"
| "typeof (Bool b) = ''boolean''"
| "typeof Undefined = ''undefined''"
| "typeof Null = ''object''"

text \<open>ToBoolean, as the operators \<open>!\<close>, \<open>||\<close> and \<open>if\<close> apply it.\<close>

fun truthy :: "'f jsval \<Rightarrow> bool" where
  "truthy (Func f) = True"
| "truthy (Arr a) = True"
| "truthy (Num n) = (n \<noteq> 0)"
| "truthy (Str s) = (s \<noteq> [])"
| "truthy (Bool b) = b"
| "truthy Undefined = False"
| "truthy Null = False"

text \<open>
  Strict equality \<open>===\<close> on primitive values: operands of different types are
  never equal. (Objects compare by identity and never reach this function.)
\<close>

fun strict_eq :: "'f jsval \<Rightarrow> 'f jsval \<Rightarrow> bool" where
  "strict_eq (Num a) (Num b) = (a = b)"
| "strict_eq (Str a) (Str b) = (a = b)"
| "strict_eq (Bool a) (Bool b) = (a = b)"
| "strict_eq Undefined Undefined = True"
| "strict_eq Null Null = True"
| "strict_eq _ _ = False"

text \<open>The operator \<open>||\<close> on strings that may be undefined (or \<open>false\<close>).\<close>

definition js_or :: "string option \<Rightarrow> string option \<Rightarrow> string option" where
  "js_or a b = (case a of None \<Rightarrow> b | Some x \<Rightarrow> if x \<noteq> [] then a else b)"

text \<open>A string that may be undefined, in a concatenation.\<close>

definition js_str :: "string option \<Rightarrow> string" where
  "js_str a = (case a of None \<Rightarrow> ''undefined'' | Some x \<Rightarrow> x)"

subsection \<open>argsToChain\<close>

text \<open>
  The guard of line 42, \<open>!typeof(h) === 'function'\<close>. Unary \<open>!\<close> binds tighter
  than \<open>===\<close>, so the expression compares the boolean \<open>!typeof(h)\<close> with the
  string \<open>'function'\<close>.
\<close>

definition handler_guard :: "'f jsval \<Rightarrow> bool" where
  "handler_guard h =
     strict_eq (Bool (\<not> truthy (Str (typeof h) :: 'f jsval)) :: 'f jsval) (Str ''function'')"

text \<open>
  The inner function \<open>process\<close>: \<open>forEach\<close> over the handlers, pushing onto the
  shared array \<open>chain\<close>, which is threaded through as an accumulator. The
  pattern \<open>Arr a\<close> is the test \<open>Array.isArray(h)\<close>; a throw inside the callback
  leaves the loop.
\<close>

fun process :: "'f jsval list \<Rightarrow> 'f jsval list \<Rightarrow> error + 'f jsval list" where
  "process [] chain = Inr chain"
| "process (Arr a # hs) chain =
     (case process a chain of
        Inl e \<Rightarrow> Inl e
      | Inr chain' \<Rightarrow> process hs chain')"
| "process (h # hs) chain =
     (if handler_guard h then Inl (TypeError ''handlers must be Functions'')
      else process hs (chain @ [h]))"

text \<open>
  \<open>argsToChain\<close> is always called with one argument, the array-like \<open>args\<close>
  (an \<open>arguments\<close> object or an array), so the assertion of line 30 holds.
\<close>

definition argsToChain :: "'f jsval list \<Rightarrow> error + 'f jsval list" where
  "argsToChain args =
     (if int (length args) < 0 then Inl (TypeError ''handler (Function) required'')
      else process args [])"

text \<open>
  The flattening the chain builder is described by: arrays are replaced by their
  flattened contents, every other element is kept, in order.
\<close>

fun flatten_handlers :: "'f jsval list \<Rightarrow> 'f jsval list" where
  "flatten_handlers [] = []"
| "flatten_handlers (Arr a # hs) = flatten_handlers a @ flatten_handlers hs"
| "flatten_handlers (h # hs) = h # flatten_handlers hs"

subsection \<open>Routes, requests and responses\<close>

text \<open>
  What the server reads and writes of a Route object: the options it passes to
  the constructor (lines 384-393) and the list \<open>methods\<close> (lines 403, 404, 486).
  \<open>rid\<close> stands for the identity of the object, which \<open>rm\<close> compares with
  \<open>===\<close>. A version is \<open>None\<close> where the source has \<open>false\<close> or
  \<open>undefined\<close>.
\<close>

type_synonym params = "(string \<times> string) list"

record 'f route =
  rid :: nat
  name :: string
  "method" :: string
  url :: "string option"
  handlers :: "'f jsval list"
  version :: "string option"
  rangeVersioning :: bool
  methods :: "string list"

text \<open>
  A request as the server touches it: \<open>req.method\<close>, \<open>req.url\<close> and
  \<open>req.params\<close> (\<open>None\<close> until a route is resolved), with the raw headers for
  the predicates of a route to look at.
\<close>

record request =
  req_method :: string
  req_url :: string
  req_headers :: "(string \<times> string) list"
  params :: "params option"

text \<open>
  The error objects handed to \<open>res.send\<close>: the three of lib/errors.js that the
  default responders build, and whatever value a handler passes to its callback.
\<close>

datatype 'e http_error =
    ResourceNotFoundError string
  | BadMethodError string
  | InvalidVersionError string
  | Raised 'e

datatype 'e payload = Status nat | Failure "'e http_error"

text \<open>
  lib/response.js is absent: a response is the sequence of method calls the
  server and its default responders make on it, and the properties they assign.
\<close>

datatype 'e res_call = Header string string | Send "'e payload" | DefaultHeaders

record 'e response =
  calls :: "'e res_call list"
  res_methods :: "string list option"
  res_versions :: "string list option"
  res_version :: "string option option"
  serverName :: "string option"

definition header :: "string \<Rightarrow> string \<Rightarrow> 'e response \<Rightarrow> 'e response" where
  "header k v res = res\<lparr>calls := calls res @ [Header k v]\<rparr>"

definition send :: "'e payload \<Rightarrow> 'e response \<Rightarrow> 'e response" where
  "send x res = res\<lparr>calls := calls res @ [Send x]\<rparr>"

definition defaultHeaders :: "'e response \<Rightarrow> 'e response" where
  "defaultHeaders res = res\<lparr>calls := calls res @ [DefaultHeaders]\<rparr>"

text \<open>
  \<open>r.matchesUrl\<close> is applied to a request (line 468) and to the object literal
  \<open>{ url: options.url }\<close> (line 402).
\<close>

datatype url_subject = Of_request request | Url_only "string option"

text \<open>
  What the server calls of lib/route.js, parameters of the model: the three
  predicates of \<open>Route.prototype\<close>; \<open>route_use\<close>, which is
  \<open>Route.prototype.use\<close>, called by \<open>Server.prototype.use\<close> on every
  registered route with the new handlers (line 348), and yields the route after the
  call; and \<open>rejects\<close>: the error the constructor of Route throws for a URL
  pattern and a handler chain it does not accept, if any.
\<close>

record 'f route_proto =
  matchesUrl :: "'f route \<Rightarrow> url_subject \<Rightarrow> params option"
  matchesMethod :: "'f route \<Rightarrow> request \<Rightarrow> bool"
  matchesVersion :: "'f route \<Rightarrow> request \<Rightarrow> bool"
  route_use :: "'f route \<Rightarrow> 'f jsval list \<Rightarrow> 'f route"
  rejects :: "string option \<Rightarrow> 'f jsval list \<Rightarrow> error option"

subsection \<open>The server\<close>

text \<open>
  An event of the server with the argument that follows \<open>req\<close> and \<open>res\<close> in
  \<open>emit\<close>.
\<close>

datatype event =
    VersionNotAllowed "string list"
  | MethodNotAllowed "string list"
  | NotFound

fun event_name :: "event \<Rightarrow> string" where
  "event_name (VersionNotAllowed vs) = ''VersionNotAllowed''"
| "event_name (MethodNotAllowed ms) = ''MethodNotAllowed''"
| "event_name NotFound = ''NotFound''"

text \<open>
  A listener is a function of the user or \<open>Default\<close>, the default responder of
  the event it is registered for (\<open>defaultBadVersionHandler\<close>,
  \<open>default405Handler\<close> or \<open>default404Handler\<close>; \<open>_findRoute\<close> registers each
  under its own event only). The flag of a registration says that it was made
  with \<open>once\<close>.
\<close>

datatype 'l listener = Default | User 'l

record ('f, 'l, 's) server =
  chain :: "'f jsval list"
  preChain :: "'f jsval list"
  routes :: "'f route list"
  formatters :: "(string \<times> 's) list"
  server_name :: string
  server_version :: "string option"
  server_rangeVersioning :: bool
  listeners :: "string \<Rightarrow> ('l listener \<times> bool) list"
  next_rid :: nat

text \<open>
  The constructor of lines 105-123, from the options it reads (\<open>log4js\<close>,
  \<open>dtrace\<close> and the HTTP server apart): no chain, no route, no listener.
\<close>

definition new_Server ::
  "(string \<times> 's) list \<Rightarrow> string option \<Rightarrow> string option \<Rightarrow> bool \<Rightarrow> ('f, 'l, 's) server" where
  "new_Server fs n v rv =
     \<lparr>chain = [], preChain = [], routes = [], formatters = fs,
      server_name = js_str (js_or n (Some ''restify'')),
      server_version = js_or v None, server_rangeVersioning = rv,
      listeners = (\<lambda>n. []), next_rid = 0\<rparr>"

subsection \<open>The acceptable getter\<close>

text \<open>
  \<open>self.formatters\<close> is an object from MIME type to serializer: an association
  list in insertion order, which is the order \<open>Object.keys\<close> lists string keys in.
  \<open>Response.ACCEPTABLE\<close> belongs to lib/response.js and is a parameter.
\<close>

definition object_keys :: "(string \<times> 's) list \<Rightarrow> string list" where
  "object_keys obj = map fst obj"

text \<open>
  \<open>if (xs.indexOf(a) === -1) xs.push(a)\<close>, the body of the loop of lines 167-170
  and the accumulation of lines 403, 474 and 478.
\<close>

definition push_if_absent :: "string list \<Rightarrow> string \<Rightarrow> string list" where
  "push_if_absent xs a = (if a \<notin> set xs then xs @ [a] else xs)"

definition acceptable :: "string list \<Rightarrow> ('f, 'l, 's) server \<Rightarrow> string list" where
  "acceptable ACCEPTABLE self =
     foldl push_if_absent (object_keys (formatters self)) ACCEPTABLE"

text \<open>The elements of a list in order of first occurrence.\<close>

definition first_occurrences :: "'a list \<Rightarrow> 'a list" where
  "first_occurrences xs = rev (remdups (rev xs))"

subsection \<open>Registration: use, pre, route registration, rm\<close>


text \<open>\<open>Server.prototype.pre\<close>.\<close>

definition pre :: "('f, 'l, 's) server \<Rightarrow> 'f jsval list \<Rightarrow> error + ('f, 'l, 's) server" where
  "pre self args =
     (case argsToChain args of
        Inl e \<Rightarrow> Inl e
      | Inr c \<Rightarrow> Inr (self\<lparr>preChain := preChain self @ c\<rparr>))"




text \<open>
  Modelled from the spec: the constructor of Route (lib/route.js, absent from the
  sources). A Route binds the method, URL pattern, version constraint and handler
  chain it is given; its name is the explicit one or derived from method and
  pattern; the set of methods it collects from other routes starts empty. A
  malformed pattern is an error raised at registration time (\<open>rejects\<close>, checked
  by the caller below, which also lets the constructor refuse the chain).
\<close>

definition new_Route ::
  "nat \<Rightarrow> string \<Rightarrow> string option \<Rightarrow> 'f jsval list \<Rightarrow> string option \<Rightarrow> string option \<Rightarrow> bool
   \<Rightarrow> 'f route" where
  "new_Route i m u hs n v rv =
     \<lparr>rid = i,
      name = (case n of Some x \<Rightarrow> x | None \<Rightarrow> m @ js_str u),
      method = m, url = u, handlers = hs, version = v, rangeVersioning = rv,
      methods = []\<rparr>"



text \<open>
  The argument of \<open>rm\<close>: a string, a Route object, or anything else.
\<close>

datatype 'f rm_arg = By_name string | By_route "'f route" | Neither

text \<open>
  Line 320. A name is a string and never equal to a Route object; a Route object
  is equal to itself only.
\<close>

fun rm_matches :: "'f route \<Rightarrow> 'f rm_arg \<Rightarrow> bool" where
  "rm_matches r (By_name n) = (name r = n)"
| "rm_matches r (By_route x) = (rid r = rid x)"
| "rm_matches r Neither = False"

text \<open>The loop of lines 319-324: the routes left when an entry was spliced out.\<close>

fun rm_loop :: "'f rm_arg \<Rightarrow> 'f route list \<Rightarrow> 'f route list option" where
  "rm_loop a [] = None"
| "rm_loop a (r # rs) =
     (if rm_matches r a then Some rs
      else (case rm_loop a rs of None \<Rightarrow> None | Some rs' \<Rightarrow> Some (r # rs')))"

definition rm :: "('f, 'l, 's) server \<Rightarrow> 'f rm_arg \<Rightarrow> error + ('f, 'l, 's) server \<times> bool" where
  "rm self a =
     (case a of
        Neither \<Rightarrow> Inl (TypeError ''name (String) required'')
      | _ \<Rightarrow>
          (case rm_loop a (routes self) of
             Some rs \<Rightarrow> Inr (self\<lparr>routes := rs\<rparr>, True)
           | None \<Rightarrow> Inr (self, False)))"

subsection \<open>Default responders\<close>

text \<open>\<open>Array.prototype.join\<close> on strings.\<close>

fun join :: "string \<Rightarrow> string list \<Rightarrow> string" where
  "join sep [] = []"
| "join sep [x] = x"
| "join sep (x # y # ys) = x @ sep @ join sep (y # ys)"

definition default404Handler :: "request \<Rightarrow> 'e response \<Rightarrow> 'e response" where
  "default404Handler req res =
     send (Failure (ResourceNotFoundError (req_url req @ '' not found''))) res"

definition default405Handler :: "request \<Rightarrow> 'e response \<Rightarrow> string list \<Rightarrow> 'e response" where
  "default405Handler req res ms =
     (let res1 = header ''Allow'' (join '', '' ms) res
      in if req_method req = ''OPTIONS'' then send (Status 200) res1
         else send (Failure (BadMethodError
                (req_url req @ '' does not support '' @ req_method req))) res1)"

definition defaultBadVersionHandler :: "request \<Rightarrow> 'e response \<Rightarrow> string list \<Rightarrow> 'e response" where
  "defaultBadVersionHandler req res vs =
     send (Failure (InvalidVersionError
       (req_method req @ '' '' @ req_url req @ '' supports versions: '' @ join '', '' vs))) res"

subsection \<open>Events\<close>

text \<open>
  The EventEmitter the server inherits from: \<open>listeners\<close>, \<open>once\<close> and \<open>emit\<close>.
  \<open>emit\<close> calls the listeners of the event in order of registration and drops
  those registered with \<open>once\<close>; it yields the listeners it called.
\<close>

definition listeners_of :: "('f, 'l, 's) server \<Rightarrow> string \<Rightarrow> 'l listener list" where
  "listeners_of self n = map fst (listeners self n)"

definition once :: "string \<Rightarrow> 'l listener \<Rightarrow> ('f, 'l, 's) server \<Rightarrow> ('f, 'l, 's) server" where
  "once n l self = self\<lparr>listeners := (listeners self)(n := listeners self n @ [(l, True)])\<rparr>"

definition emit :: "string \<Rightarrow> ('f, 'l, 's) server \<Rightarrow> 'l listener list \<times> ('f, 'l, 's) server" where
  "emit n self =
     (map fst (listeners self n),
      self\<lparr>listeners := (listeners self)(n := filter (\<lambda>g. \<not> snd g) (listeners self n))\<rparr>)"

text \<open>
  What a called listener does to the response. A default responder is the code
  above; a listener of the user is opaque, and its call is only recorded in the
  trace of \<open>_findRoute\<close>.
\<close>

fun respond :: "'l listener \<Rightarrow> event \<Rightarrow> request \<Rightarrow> 'e response \<Rightarrow> 'e response" where
  "respond Default (VersionNotAllowed vs) req res = defaultBadVersionHandler req res vs"
| "respond Default (MethodNotAllowed ms) req res = default405Handler req res ms"
| "respond Default NotFound req res = default404Handler req res"
| "respond (User l) ev req res = res"

subsection \<open>Route resolution\<close>

text \<open>
  The loop of lines 465-482 over \<open>this.routes\<close>, with the accumulators \<open>methods\<close>
  (\<open>ms\<close>) and \<open>versions\<close> (\<open>vs\<close>). It yields the route it broke at with the
  params of that route, and the accumulators.
\<close>

definition push_version :: "string list \<Rightarrow> string option \<Rightarrow> string list" where
  "push_version vs v =
     (case v of None \<Rightarrow> vs | Some x \<Rightarrow> if x \<noteq> [] then push_if_absent vs x else vs)"

fun find_loop ::
  "'f route_proto \<Rightarrow> request \<Rightarrow> 'f route list \<Rightarrow> string list \<Rightarrow> string list
   \<Rightarrow> ('f route \<times> params) option \<times> string list \<times> string list" where
  "find_loop R req [] ms vs = (None, ms, vs)"
| "find_loop R req (r # rs) ms vs =
     (case matchesUrl R r (Of_request req) of
        None \<Rightarrow> find_loop R req rs ms vs
      | Some p \<Rightarrow>
          if matchesMethod R r req then
            if matchesVersion R r req then (Some (r, p), ms, vs)
            else find_loop R req rs ms (push_version vs (version r))
          else find_loop R req rs (push_if_absent ms (method r)) vs)"

text \<open>
  The result of \<open>_findRoute\<close>: the value returned (\<open>None\<close> for \<open>false\<close>), the
  request, the response and the server after the call, and the trace of its
  \<open>emit\<close> calls, each with the listeners called.
\<close>

record ('f, 'l, 's, 'e) find_result =
  found :: "'f route option"
  f_req :: request
  f_res :: "'e response"
  f_server :: "('f, 'l, 's) server"
  emitted :: "(event \<times> 'l listener list) list"

text \<open>
  One branch of lines 492-507: install the default responder with \<open>once\<close> when
  the event has no listener, then \<open>emit\<close>.
\<close>

definition signal ::
  "event \<Rightarrow> ('f, 'l, 's) server \<Rightarrow> request \<Rightarrow> 'e response \<Rightarrow> ('f, 'l, 's, 'e) find_result" where
  "signal ev self req res =
     (let self1 = (if length (listeners_of self (event_name ev)) = 0
                   then once (event_name ev) Default self else self);
          (called, self2) = emit (event_name ev) self1
      in \<lparr>found = None, f_req = req,
          f_res = foldl (\<lambda>p l. respond l ev req p) res called,
          f_server = self2, emitted = [(ev, called)]\<rparr>)"

definition findRoute ::
  "'f route_proto \<Rightarrow> ('f, 'l, 's) server \<Rightarrow> request \<Rightarrow> 'e response
   \<Rightarrow> ('f, 'l, 's, 'e) find_result" where
  "findRoute R self req res =
     (case find_loop R req (routes self) [] [] of
        (Some (r, p), ms, vs) \<Rightarrow>
          \<lparr>found = Some r, f_req = req\<lparr>params := Some p\<rparr>,
           f_res = res\<lparr>res_methods := Some (methods r), res_version := Some (version r)\<rparr>,
           f_server = self, emitted = []\<rparr>
      | (None, ms, vs) \<Rightarrow>
          let res1 = res\<lparr>res_methods := Some ms, res_versions := Some vs\<rparr>
          in if length vs \<noteq> 0 then signal (VersionNotAllowed vs) self req res1
             else if length ms \<noteq> 0 then signal (MethodNotAllowed ms) self req res1
             else signal NotFound self req res1)"

subsection \<open>The dispatcher\<close>

text \<open>
  What a handler of the pre-chain does when called with the request, the
  response and the callback: it calls back without an error, calls back with a
  (truthy) error, or never calls back. The handler may change request and
  response on the way.
\<close>

datatype 'e step =
    Proceed request "'e response"
  | Fail 'e request "'e response"
  | Stall request "'e response"

text \<open>
  \<open>async.series\<close> over \<open>before\<close> (lines 430-441): the handlers of the pre-chain
  in order, then the task that only calls back. \<open>Proceed\<close> is the final callback
  without an error, \<open>Fail\<close> the final callback with the first error, \<open>Stall\<close> no
  final callback. Calling a value that is no function throws a TypeError (the
  message is the engine's).
\<close>

fun series ::
  "('f \<Rightarrow> request \<Rightarrow> 'e response \<Rightarrow> 'e step) \<Rightarrow> 'f jsval list \<Rightarrow> request \<Rightarrow> 'e response
   \<Rightarrow> error + 'e step" where
  "series call [] req res = Inr (Proceed req res)"
| "series call (Func f # hs) req res =
     (case call f req res of
        Proceed req' res' \<Rightarrow> series call hs req' res'
      | Fail e req' res' \<Rightarrow> Inr (Fail e req' res')
      | Stall req' res' \<Rightarrow> Inr (Stall req' res'))"
| "series call (h # hs) req res = Inl (TypeError ''is not a function'')"

text \<open>
  How \<open>_request\<close> ends: the error of the pre-chain was sent; the pre-chain never
  called back; no route was found (with the trace of \<open>_findRoute\<close>); or
  \<open>route.run\<close> was called on the route found.
\<close>

datatype ('f, 'l, 'e) outcome =
    Error_sent 'e
  | Pending
  | Unrouted "(event \<times> 'l listener list) list"
  | Ran "'f route"

record ('f, 'l, 's, 'e) request_result =
  outcome :: "('f, 'l, 'e) outcome"
  out_req :: request
  out_res :: "'e response"
  out_server :: "('f, 'l, 's) server"

text \<open>
  \<open>Server.prototype._request\<close>, from the Request and Response objects of lines
  416-426 on. \<open>route.run\<close> belongs to lib/route.js: the model stops where it is
  called, with the request and response passed to it.
\<close>

definition onRequest ::
  "'f route_proto \<Rightarrow> ('f \<Rightarrow> request \<Rightarrow> 'e response \<Rightarrow> 'e step) \<Rightarrow> ('f, 'l, 's) server
   \<Rightarrow> request \<Rightarrow> 'e response \<Rightarrow> error + ('f, 'l, 's, 'e) request_result" where
  "onRequest R call self req res =
     (case series call (preChain self) req res of
        Inl x \<Rightarrow> Inl x
      | Inr (Fail err req' res') \<Rightarrow>
          Inr \<lparr>outcome = Error_sent err, out_req = req',
               out_res = send (Failure (Raised err)) res', out_server = self\<rparr>
      | Inr (Stall req' res') \<Rightarrow>
          Inr \<lparr>outcome = Pending, out_req = req', out_res = res', out_server = self\<rparr>
      | Inr (Proceed req' res') \<Rightarrow>
          let f = findRoute R self req' res'
          in (case found f of
                None \<Rightarrow>
                  Inr \<lparr>outcome = Unrouted (emitted f), out_req = f_req f,
                       out_res = f_res f, out_server = f_server f\<rparr>
              | Some r \<Rightarrow>
                  Inr \<lparr>outcome = Ran r, out_req = f_req f,
                       out_res = defaultHeaders ((f_res f)\<lparr>serverName := Some (server_name self)\<rparr>),
                       out_server = f_server f\<rparr>))"

subsection \<open>A Route prototype after the spec\<close>

text \<open>
  Modelled from the spec: the predicates of \<open>Route.prototype\<close> (lib/route.js,
  absent from the sources), for URL patterns made of literal segments and exact
  version matching. A literal pattern matches the path equal to it and binds no
  parameter; the method must be the stored one, except that an OPTIONS request is
  always eligible; a route without version constraint matches any request, another
  one a request that lists its version in the \<open>accept-version\<close> header. The
  constructor refuses nothing. \<open>route_use\<close> is not described by the spec; it
  follows the doc comment of \<open>Server.prototype.use\<close> in the source (lines
  330-337: the handlers run before the normal handlers of all routes) and puts the
  handlers in front of the chain of the route. The examples below are run on it.
\<close>

definition subject_url :: "url_subject \<Rightarrow> string option" where
  "subject_url x = (case x of Of_request req \<Rightarrow> Some (req_url req) | Url_only u \<Rightarrow> u)"

definition requested_versions :: "request \<Rightarrow> string list" where
  "requested_versions req =
     map snd (filter (\<lambda>h. fst h = ''accept-version'') (req_headers req))"

definition literal_proto :: "'f route_proto" where
  "literal_proto =
     \<lparr>matchesUrl = (\<lambda>r x. if url r \<noteq> None \<and> url r = subject_url x then Some [] else None),
      matchesMethod = (\<lambda>r req. req_method req = ''OPTIONS'' \<or> method r = req_method req),
      matchesVersion = (\<lambda>r req.
         case version r of None \<Rightarrow> True | Some v \<Rightarrow> v \<in> set (requested_versions req)),
      route_use = (\<lambda>r c. r\<lparr>handlers := c @ handlers r\<rparr>),
      rejects = (\<lambda>u c. None)\<rparr>"

text \<open>
  For the examples: a request without headers, and a response on which nothing
  was called yet.
\<close>

definition plain_request :: "string \<Rightarrow> string \<Rightarrow> request" where
  "plain_request m u = \<lparr>req_method = m, req_url = u, req_headers = [], params = None\<rparr>"

definition fresh_response :: "'e response" where
  "fresh_response =
     \<lparr>calls = [], res_methods = None, res_versions = None, res_version = None,
      serverName = None\<rparr>"

subsection \<open>Notions of the properties\<close>

text \<open>A route that passes all three tests of the loop for a request.\<close>

definition full_match :: "'f route_proto \<Rightarrow> request \<Rightarrow> 'f route \<Rightarrow> bool" where
  "full_match R req r =
     (matchesUrl R r (Of_request req) \<noteq> None \<and> matchesMethod R r req \<and> matchesVersion R r req)"

text \<open>A route that matches the path and fails the method test.\<close>

definition method_mismatch :: "'f route_proto \<Rightarrow> request \<Rightarrow> 'f route \<Rightarrow> bool" where
  "method_mismatch R req r =
     (matchesUrl R r (Of_request req) \<noteq> None \<and> \<not> matchesMethod R r req)"

text \<open>A route that matches path and method and fails the version test.\<close>

definition version_mismatch :: "'f route_proto \<Rightarrow> request \<Rightarrow> 'f route \<Rightarrow> bool" where
  "version_mismatch R req r =
     (matchesUrl R r (Of_request req) \<noteq> None \<and> matchesMethod R r req \<and> \<not> matchesVersion R r req)"

text \<open>The truthy version of a route, if it has one.\<close>

definition truthy_version :: "'f route \<Rightarrow> string list" where
  "truthy_version r = (case version r of None \<Rightarrow> [] | Some v \<Rightarrow> if v \<noteq> [] then [v] else [])"

text \<open>
  The allowed methods and the acceptable versions of a request: the methods of
  the routes that fail on the method, and the versions of the routes that fail on
  the version, each once, in registration order.
\<close>

definition allowed_methods :: "'f route_proto \<Rightarrow> request \<Rightarrow> 'f route list \<Rightarrow> string list" where
  "allowed_methods R req rs = first_occurrences (map method (filter (method_mismatch R req) rs))"

definition acceptable_versions :: "'f route_proto \<Rightarrow> request \<Rightarrow> 'f route list \<Rightarrow> string list" where
  "acceptable_versions R req rs =
     first_occurrences (concat (map truthy_version (filter (version_mismatch R req) rs)))"

text \<open>
  The fallback outcome by precedence: version mismatch, then method mismatch,
  then not found.
\<close>

definition fallback :: "string list \<Rightarrow> string list \<Rightarrow> event" where
  "fallback vs ms =
     (if vs \<noteq> [] then VersionNotAllowed vs
      else if ms \<noteq> [] then MethodNotAllowed ms
      else NotFound)"

text \<open>
  The listeners an event is delivered to: those registered, or the default
  responder when there is none.
\<close>

definition receivers :: "('f, 'l, 's) server \<Rightarrow> event \<Rightarrow> 'l listener list" where
  "receivers self ev =
     (if listeners_of self (event_name ev) = [] then [Default]
      else listeners_of self (event_name ev))"

section \<open>Handler chain construction\<close>

lemma handler_guard_False: "\<not> handler_guard h"
  by (cases h) (simp_all add: handler_guard_def)

lemma process_flatten: "process hs acc = Inr (acc @ flatten_handlers hs)"
proof (induction hs acc rule: process.induct)
  case (1 acc)
  show ?case by simp
next
  case (2 a hs acc)
  then show ?case by simp
qed (simp_all add: handler_guard_False)

text \<open>
  C10: for every argument list, also one that holds values that are not functions,
  \<open>argsToChain\<close> raises no TypeError: it returns the flattened list, every
  element that is not an array appended in order.
\<close>

theorem argsToChain_never_raises:
  "argsToChain args = Inr (flatten_handlers args)"
  by (simp add: argsToChain_def process_flatten)

section \<open>Content negotiation surface\<close>

lemma first_occurrences_snoc:
  "first_occurrences (xs @ [x]) =
     (if x \<in> set xs then first_occurrences xs else first_occurrences xs @ [x])"
  by (simp add: first_occurrences_def)

lemma set_first_occurrences: "set (first_occurrences xs) = set xs"
  by (simp add: first_occurrences_def)

lemma distinct_first_occurrences: "distinct (first_occurrences xs)"
  by (simp add: first_occurrences_def)

lemma foldl_push_if_absent:
  "foldl push_if_absent acc xs = acc @ filter (\<lambda>a. a \<notin> set acc) (first_occurrences xs)"
proof (induction xs rule: rev_induct)
  case Nil
  show ?case by (simp add: first_occurrences_def)
next
  case (snoc x xs)
  then show ?case
    by (simp add: push_if_absent_def first_occurrences_snoc set_first_occurrences)
qed

text \<open>
  C9: the acceptable types are the keys of the formatter table in their own
  order, followed by the entries of \<open>Response.ACCEPTABLE\<close> that are not among
  them (each once, in order of first occurrence), and the list has no duplicates.
\<close>

theorem acceptable_keys_then_fallbacks:
  assumes "distinct (object_keys (formatters self))"
  shows "acceptable ACCEPTABLE self =
           object_keys (formatters self) @
           filter (\<lambda>a. a \<notin> set (object_keys (formatters self))) (first_occurrences ACCEPTABLE)
         \<and> distinct (acceptable ACCEPTABLE self)"
  using assms
  by (auto simp add: acceptable_def foldl_push_if_absent distinct_first_occurrences
      set_first_occurrences)

theorem acceptable_keys_then_fallbacks_witness:
  "acceptable [''application/json'', ''text/plain'', ''application/octet-stream'']
     (new_Server [(''application/foo'', ()), (''text/plain'', ())] None None False
        :: (string, string, unit) server)
   = [''application/foo'', ''text/plain'', ''application/json'', ''application/octet-stream'']
   \<and> distinct (acceptable [''application/json'', ''text/plain'', ''application/octet-stream'']
     (new_Server [(''application/foo'', ()), (''text/plain'', ())] None None False
        :: (string, string, unit) server))"
proof -
  let ?s = "new_Server [(''application/foo'', ()), (''text/plain'', ())] None None False
        :: (string, string, unit) server"
  have k: "object_keys (formatters ?s) = [''application/foo'', ''text/plain'']"
    by (simp add: new_Server_def object_keys_def)
  then have h: "distinct (object_keys (formatters ?s))"
    by simp
  from acceptable_keys_then_fallbacks [OF h,
      of "[''application/json'', ''text/plain'', ''application/octet-stream'']"] k
  show ?thesis
    by (simp add: first_occurrences_def)
qed

section \<open>Resolution of a route\<close>

lemma foldl_push_version:
  "foldl push_version vs (map version rs) = foldl push_if_absent vs (concat (map truthy_version rs))"
  by (induction rs arbitrary: vs) (auto simp: push_version_def truthy_version_def split: option.splits)

lemma foldl_push_if_absent_Nil: "foldl push_if_absent [] xs = first_occurrences xs"
  by (simp add: foldl_push_if_absent)

lemma find_loop_no_match:
  assumes "\<forall>r\<in>set rs. \<not> full_match R req r"
  shows "find_loop R req rs ms vs =
    (None, foldl push_if_absent ms (map method (filter (method_mismatch R req) rs)),
           foldl push_version vs (map version (filter (version_mismatch R req) rs)))"
  using assms
  by (induction rs arbitrary: ms vs)
     (auto simp: full_match_def method_mismatch_def version_mismatch_def split: option.splits)

lemma find_loop_accumulators:
  assumes "\<forall>r\<in>set rs. \<not> full_match R req r"
  shows "find_loop R req rs [] [] = (None, allowed_methods R req rs, acceptable_versions R req rs)"
  by (simp add: find_loop_no_match [OF assms] foldl_push_version foldl_push_if_absent_Nil
      allowed_methods_def acceptable_versions_def)

lemma find_loop_append:
  assumes "\<forall>r\<in>set earlier. \<not> full_match R req r"
  shows "find_loop R req (earlier @ rs) ms vs =
     find_loop R req rs (fst (snd (find_loop R req earlier ms vs))) (snd (snd (find_loop R req earlier ms vs)))"
  using assms
  by (induction earlier arbitrary: ms vs)
     (auto simp: full_match_def split: option.splits)

lemma fst_find_loop:
  "map_option fst (fst (find_loop R req rs ms vs)) = find (full_match R req) rs"
  by (induction rs arbitrary: ms vs)
     (auto simp: full_match_def split: option.splits)

lemma found_findRoute: "found (findRoute R s req res) = map_option fst (fst (find_loop R req (routes s) [] []))"
  by (auto simp: findRoute_def signal_def Let_def split: prod.splits option.splits)

lemma findRoute_hit:
  assumes "find_loop R req (routes s) [] [] = (Some (r, p), ms, vs)"
  shows "findRoute R s req res =
     \<lparr>found = Some r, f_req = req\<lparr>params := Some p\<rparr>,
      f_res = res\<lparr>res_methods := Some (methods r), res_version := Some (version r)\<rparr>,
      f_server = s, emitted = []\<rparr>"
  using assms by (simp add: findRoute_def)

lemma signal_eq:
  "signal ev s req res =
     \<lparr>found = None, f_req = req,
      f_res = foldl (\<lambda>p l. respond l ev req p) res (receivers s ev),
      f_server = s\<lparr>listeners := (listeners s)(event_name ev := filter (\<lambda>g. \<not> snd g) (listeners s (event_name ev)))\<rparr>,
      emitted = [(ev, receivers s ev)]\<rparr>"
  by (auto simp: signal_def receivers_def listeners_of_def once_def emit_def Let_def fun_eq_iff)

lemma findRoute_miss:
  assumes "find_loop R req (routes s) [] [] = (None, ms, vs)"
  shows "findRoute R s req res =
     signal (fallback vs ms) s req (res\<lparr>res_methods := Some ms, res_versions := Some vs\<rparr>)"
  using assms by (simp add: findRoute_def fallback_def Let_def)

lemma findRoute_no_match:
  assumes "find (full_match R req) (routes s) = None"
  shows "found (findRoute R s req res) = None \<and>
         emitted (findRoute R s req res) =
           [(fallback (acceptable_versions R req (routes s)) (allowed_methods R req (routes s)),
             receivers s (fallback (acceptable_versions R req (routes s))
                            (allowed_methods R req (routes s))))] \<and>
         f_res (findRoute R s req res) =
           foldl (\<lambda>p l. respond l (fallback (acceptable_versions R req (routes s))
                                     (allowed_methods R req (routes s))) req p)
             (res\<lparr>res_methods := Some (allowed_methods R req (routes s)),
                  res_versions := Some (acceptable_versions R req (routes s))\<rparr>)
             (receivers s (fallback (acceptable_versions R req (routes s))
                            (allowed_methods R req (routes s))))"
proof -
  from assms have "\<forall>r\<in>set (routes s). \<not> full_match R req r"
    by (simp add: find_None_iff)
  then have "find_loop R req (routes s) [] [] =
      (None, allowed_methods R req (routes s), acceptable_versions R req (routes s))"
    by (rule find_loop_accumulators)
  then show ?thesis
    by (simp add: findRoute_miss signal_eq)
qed

lemma literal_simps:
  "matchesUrl literal_proto r (Of_request req) = (if url r \<noteq> None \<and> url r = Some (req_url req) then Some [] else None)"
  "matchesMethod literal_proto r req = (req_method req = ''OPTIONS'' \<or> method r = req_method req)"
  "matchesVersion literal_proto r req = (case version r of None \<Rightarrow> True | Some v \<Rightarrow> v \<in> set (requested_versions req))"
  by (simp_all add: literal_proto_def subject_url_def)

text \<open>
  C1: the route returned is the first of the table, in registration order, that
  passes the path, method and version tests. The scan stops there: the
  accumulators are those of the earlier routes alone, and the result is that of
  the table cut after this route, so no later route is looked at or chosen.
\<close>

theorem first_full_match_wins:
  "found (findRoute R s req res) = find (full_match R req) (routes s) \<and>
   (\<forall>earlier r later.
      routes s = earlier @ r # later \<and> (\<forall>x\<in>set earlier. \<not> full_match R req x) \<and>
      full_match R req r \<longrightarrow>
        found (findRoute R s req res) = Some r \<and>
        snd (find_loop R req (routes s) [] []) = snd (find_loop R req earlier [] []) \<and>
        findRoute R s req res = (findRoute R (s\<lparr>routes := earlier @ [r]\<rparr>) req res)\<lparr>f_server := s\<rparr>)"
proof (intro conjI allI impI)
  show first: "found (findRoute R s req res) = find (full_match R req) (routes s)"
    by (simp add: found_findRoute fst_find_loop)
  fix earlier r later
  assume h: "routes s = earlier @ r # later \<and> (\<forall>x\<in>set earlier. \<not> full_match R req x) \<and>
      full_match R req r"
  then have none: "\<forall>x\<in>set earlier. \<not> full_match R req x" and full: "full_match R req r"
    and rs: "routes s = earlier @ r # later"
    by simp_all
  obtain ms vs where acc: "find_loop R req earlier [] [] = (None, ms, vs)"
    using find_loop_no_match [OF none] by blast
  obtain p where p: "matchesUrl R r (Of_request req) = Some p"
    using full by (auto simp add: full_match_def)
  have hit: "find_loop R req (r # xs) ms vs = (Some (r, p), ms, vs)" for xs
    using full p by (simp add: full_match_def)
  have whole: "find_loop R req (routes s) [] [] = (Some (r, p), ms, vs)"
    by (simp add: rs find_loop_append [OF none] acc hit del: find_loop.simps)
  have cut: "find_loop R req (earlier @ [r]) [] [] = (Some (r, p), ms, vs)"
    by (simp add: find_loop_append [OF none] acc hit del: find_loop.simps)
  show "found (findRoute R s req res) = Some r"
    by (simp add: findRoute_hit [OF whole])
  show "snd (find_loop R req (routes s) [] []) = snd (find_loop R req earlier [] [])"
    by (simp add: whole acc)
  show "findRoute R s req res = (findRoute R (s\<lparr>routes := earlier @ [r]\<rparr>) req res)\<lparr>f_server := s\<rparr>"
  proof -
    have "find_loop R req (routes (s\<lparr>routes := earlier @ [r]\<rparr>)) [] [] = (Some (r, p), ms, vs)"
      using cut by simp
    then have "findRoute R (s\<lparr>routes := earlier @ [r]\<rparr>) req res =
       \<lparr>found = Some r, f_req = req\<lparr>params := Some p\<rparr>,
        f_res = res\<lparr>res_methods := Some (methods r), res_version := Some (version r)\<rparr>,
        f_server = s\<lparr>routes := earlier @ [r]\<rparr>, emitted = []\<rparr>"
      by (rule findRoute_hit)
    then show ?thesis
      by (simp add: findRoute_hit [OF whole])
  qed
qed

theorem first_full_match_wins_witness:
  "found (findRoute literal_proto
      ((new_Server [] None None False :: (string, string, unit) server)
         \<lparr>routes := [new_Route 0 ''GET'' (Some ''/y'') [] None None False,
                      new_Route 1 ''POST'' (Some ''/x'') [] None None False,
                      new_Route 2 ''GET'' (Some ''/x'') [Func ''a''] None None False,
                      new_Route 3 ''GET'' (Some ''/x'') [Func ''b''] None None False]\<rparr>)
      (plain_request ''GET'' ''/x'') (fresh_response :: unit response))
   = Some (new_Route 2 ''GET'' (Some ''/x'') [Func ''a''] None None False)
   \<and> snd (find_loop literal_proto (plain_request ''GET'' ''/x'')
      [new_Route 0 ''GET'' (Some ''/y'') [] None None False,
       new_Route 1 ''POST'' (Some ''/x'') [] None None False,
       new_Route 2 ''GET'' (Some ''/x'') [Func ''a''] None None False,
       new_Route 3 ''GET'' (Some ''/x'') [Func ''b''] None None False :: string route] [] [])
     = ([''POST''], [])"
proof -
  let ?q = "plain_request ''GET'' ''/x''"
  let ?r1 = "new_Route 0 ''GET'' (Some ''/y'') [] None None False :: string route"
  let ?r2 = "new_Route 1 ''POST'' (Some ''/x'') [] None None False :: string route"
  let ?r3 = "new_Route 2 ''GET'' (Some ''/x'') [Func ''a''] None None False :: string route"
  let ?r4 = "new_Route 3 ''GET'' (Some ''/x'') [Func ''b''] None None False :: string route"
  let ?s = "(new_Server [] None None False :: (string, string, unit) server)
              \<lparr>routes := [?r1, ?r2, ?r3, ?r4]\<rparr>"
  have h: "routes ?s = [?r1, ?r2] @ ?r3 # [?r4] \<and>
      (\<forall>x\<in>set [?r1, ?r2]. \<not> full_match literal_proto ?q x) \<and> full_match literal_proto ?q ?r3"
    by (simp add: full_match_def literal_proto_def new_Route_def subject_url_def
        plain_request_def)
  have acc: "snd (find_loop literal_proto ?q [?r1, ?r2] [] []) = ([''POST''], [])"
    by (simp add: literal_proto_def new_Route_def subject_url_def push_if_absent_def
        plain_request_def)
  note w = first_full_match_wins [of literal_proto ?s ?q "fresh_response :: unit response",
      THEN conjunct2, rule_format, OF h]
  from w [THEN conjunct1] w [THEN conjunct2, THEN conjunct1] acc
  show ?thesis by (simp del: find_loop.simps)
qed

text \<open>
  C2: when no route passes all three tests, nothing is returned and exactly one
  event is emitted: VersionNotAllowed with the acceptable versions if there are
  any, else MethodNotAllowed with the allowed methods if there are any, else
  NotFound. It goes to the listeners registered for it, or to the default
  responder when there is none, and the response is what they make of it.
\<close>

theorem fallback_precedence:
  assumes "find (full_match R req) (routes s) = None"
  shows "found (findRoute R s req res) = None \<and>
         emitted (findRoute R s req res) =
           [(fallback (acceptable_versions R req (routes s)) (allowed_methods R req (routes s)),
             receivers s (fallback (acceptable_versions R req (routes s))
                            (allowed_methods R req (routes s))))] \<and>
         f_res (findRoute R s req res) =
           foldl (\<lambda>p l. respond l (fallback (acceptable_versions R req (routes s))
                                     (allowed_methods R req (routes s))) req p)
             (res\<lparr>res_methods := Some (allowed_methods R req (routes s)),
                  res_versions := Some (acceptable_versions R req (routes s))\<rparr>)
             (receivers s (fallback (acceptable_versions R req (routes s))
                            (allowed_methods R req (routes s))))"
  using assms by (rule findRoute_no_match)

theorem fallback_precedence_witness:
  "emitted (findRoute literal_proto
      ((new_Server [] None None False :: (string, string, unit) server)
         \<lparr>routes := [new_Route 0 ''GET'' (Some ''/x'') [] None (Some ''1.0'') False,
                      new_Route 1 ''POST'' (Some ''/x'') [] None None False,
                      new_Route 2 ''GET'' (Some ''/x'') [] None (Some ''2.0'') False]\<rparr>)
      ((plain_request ''GET'' ''/x'')\<lparr>req_headers := [(''accept-version'', ''3.0'')]\<rparr>)
      (fresh_response :: unit response))
   = [(VersionNotAllowed [''1.0'', ''2.0''], [Default])]"
proof -
  let ?q = "(plain_request ''GET'' ''/x'')\<lparr>req_headers := [(''accept-version'', ''3.0'')]\<rparr>"
  let ?rs = "[new_Route 0 ''GET'' (Some ''/x'') [] None (Some ''1.0'') False,
              new_Route 1 ''POST'' (Some ''/x'') [] None None False,
              new_Route 2 ''GET'' (Some ''/x'') [] None (Some ''2.0'') False :: string route]"
  let ?s = "(new_Server [] None None False :: (string, string, unit) server)\<lparr>routes := ?rs\<rparr>"
  have h: "find (full_match literal_proto ?q) (routes ?s) = None"
    by (simp add: full_match_def literal_simps new_Route_def plain_request_def
        requested_versions_def)
  have vs: "acceptable_versions literal_proto ?q ?rs = [''1.0'', ''2.0'']"
    by (simp add: acceptable_versions_def version_mismatch_def literal_simps new_Route_def
        plain_request_def requested_versions_def truthy_version_def first_occurrences_def)
  have l: "listeners_of ?s ''VersionNotAllowed'' = []"
    by (simp add: listeners_of_def new_Server_def)
  from fallback_precedence [OF h, of "fresh_response :: unit response", THEN conjunct2, THEN conjunct1]
    vs l
  show ?thesis
    by (simp add: fallback_def receivers_def)
qed

lemma allowed_methods_pair:
  assumes "method_mismatch R req a" "method_mismatch R req b" "method a \<noteq> method b"
  shows "allowed_methods R req [a, b] = [method a, method b]"
  using assms by (simp add: allowed_methods_def first_occurrences_def)

lemma acceptable_versions_none:
  assumes "\<forall>r\<in>set rs. \<not> version_mismatch R req r"
  shows "acceptable_versions R req rs = []"
  using assms by (simp add: acceptable_versions_def first_occurrences_def filter_False)

lemma respond_res_methods: "res_methods (respond l ev req p) = res_methods p"
  by (cases l; cases ev)
     (simp_all add: default404Handler_def default405Handler_def defaultBadVersionHandler_def
        header_def send_def Let_def)

lemma foldl_respond_res_methods:
  "res_methods (foldl (\<lambda>p l. respond l ev req p) p ls) = res_methods p"
  by (induction ls arbitrary: p) (simp_all add: respond_res_methods)

text \<open>
  C5: with R1 (GET) and R2 (POST) registered on a path, in either order, a request
  on that path whose method neither accepts is answered by MethodNotAllowed; the
  methods it carries are GET and POST, each once, in the order of the table.
\<close>

theorem method_aggregation:
  assumes order: "routes s = [R1, R2] \<or> routes s = [R2, R1]"
    and get: "method R1 = ''GET''" and post: "method R2 = ''POST''"
    and m1: "method_mismatch R req R1" and m2: "method_mismatch R req R2"
  shows "found (findRoute R s req res) = None \<and>
         emitted (findRoute R s req res) =
           [(MethodNotAllowed (map method (routes s)),
             receivers s (MethodNotAllowed (map method (routes s))))] \<and>
         res_methods (f_res (findRoute R s req res)) = Some (map method (routes s)) \<and>
         set (map method (routes s)) = {''GET'', ''POST''} \<and>
         distinct (map method (routes s))"
proof -
  have n1: "\<not> full_match R req R1" and n2: "\<not> full_match R req R2"
    using m1 m2 by (simp_all add: method_mismatch_def full_match_def)
  have v1: "\<not> version_mismatch R req R1" and v2: "\<not> version_mismatch R req R2"
    using m1 m2 by (simp_all add: method_mismatch_def version_mismatch_def)
  have none: "find (full_match R req) (routes s) = None"
    using order n1 n2 by auto
  have vs: "acceptable_versions R req (routes s) = []"
    using order v1 v2 by (auto intro: acceptable_versions_none)
  have ms: "allowed_methods R req (routes s) = map method (routes s)"
    using order m1 m2 get post by (auto simp add: allowed_methods_pair)
  have ev: "fallback [] (map method (routes s)) = MethodNotAllowed (map method (routes s))"
    using order by (auto simp add: fallback_def)
  have methods: "set (map method (routes s)) = {''GET'', ''POST''} \<and> distinct (map method (routes s))"
    using order get post by auto
  from findRoute_no_match [OF none, of res] methods show ?thesis
    by (simp add: vs ms ev foldl_respond_res_methods)
qed


theorem method_aggregation_witness:
  "emitted (findRoute literal_proto
      ((new_Server [] None None False :: (string, string, unit) server)
         \<lparr>routes := [new_Route 0 ''POST'' (Some ''/x'') [] None None False,
                      new_Route 1 ''GET'' (Some ''/x'') [] None None False]\<rparr>)
      (plain_request ''DELETE'' ''/x'') (fresh_response :: unit response))
   = [(MethodNotAllowed [''POST'', ''GET''], [Default])]
   \<and> set [''POST'', ''GET''] = {''GET'', ''POST''}"
proof -
  let ?q = "plain_request ''DELETE'' ''/x''"
  let ?R1 = "new_Route 1 ''GET'' (Some ''/x'') [] None None False :: string route"
  let ?R2 = "new_Route 0 ''POST'' (Some ''/x'') [] None None False :: string route"
  let ?s = "(new_Server [] None None False :: (string, string, unit) server)
              \<lparr>routes := [?R2, ?R1]\<rparr>"
  have order: "routes ?s = [?R1, ?R2] \<or> routes ?s = [?R2, ?R1]"
    by simp
  have get: "method ?R1 = ''GET''" and post: "method ?R2 = ''POST''"
    by (simp_all add: new_Route_def)
  have m1: "method_mismatch literal_proto ?q ?R1" and m2: "method_mismatch literal_proto ?q ?R2"
    by (simp_all add: method_mismatch_def literal_simps new_Route_def plain_request_def)
  have l: "listeners_of ?s ''MethodNotAllowed'' = []"
    by (simp add: listeners_of_def new_Server_def)
  note w = method_aggregation [OF order get post m1 m2, of "fresh_response :: unit response"]
  from w [THEN conjunct2, THEN conjunct1] w [THEN conjunct2, THEN conjunct2, THEN conjunct2, THEN conjunct1] l
  show ?thesis
    by (simp add: receivers_def new_Route_def)
qed



section \<open>The default method responder\<close>

text \<open>
  C6: the default responder of MethodNotAllowed sets the header Allow to the
  methods joined by a comma and a blank, then sends 200 to an OPTIONS request and
  a BadMethodError to any other. When resolution ends in a method mismatch and no
  listener is registered, this is the response, with the allowed methods
  accumulated by the scan.
\<close>

theorem default_405_response:
  "calls (default405Handler req res ms) =
     calls res @
     [Header ''Allow'' (join '', '' ms),
      Send (if req_method req = ''OPTIONS'' then Status 200
            else Failure (BadMethodError (req_url req @ '' does not support '' @ req_method req)))]
   \<and> (find (full_match R req) (routes s) = None \<and>
        acceptable_versions R req (routes s) = [] \<and>
        allowed_methods R req (routes s) \<noteq> [] \<and>
        listeners_of s ''MethodNotAllowed'' = [] \<longrightarrow>
        emitted (findRoute R s req res) =
          [(MethodNotAllowed (allowed_methods R req (routes s)), [Default])] \<and>
        calls (f_res (findRoute R s req res)) =
          calls res @
          [Header ''Allow'' (join '', '' (allowed_methods R req (routes s))),
           Send (if req_method req = ''OPTIONS'' then Status 200
                 else Failure (BadMethodError
                        (req_url req @ '' does not support '' @ req_method req)))])"
proof (intro conjI impI)
  show d: "calls (default405Handler req res ms) =
     calls res @
     [Header ''Allow'' (join '', '' ms),
      Send (if req_method req = ''OPTIONS'' then Status 200
            else Failure (BadMethodError (req_url req @ '' does not support '' @ req_method req)))]"
    for res :: "'a response" and ms
    by (simp add: default405Handler_def header_def send_def Let_def)
  assume h: "find (full_match R req) (routes s) = None \<and>
        acceptable_versions R req (routes s) = [] \<and>
        allowed_methods R req (routes s) \<noteq> [] \<and>
        listeners_of s ''MethodNotAllowed'' = []"
  then have none: "find (full_match R req) (routes s) = None" by simp
  have ev: "fallback (acceptable_versions R req (routes s)) (allowed_methods R req (routes s)) =
      MethodNotAllowed (allowed_methods R req (routes s))"
    using h by (simp add: fallback_def)
  have rc: "receivers s (MethodNotAllowed ms') = [Default]" for ms'
    using h by (simp add: receivers_def)
  note fp = findRoute_no_match [OF none, of res]
  show "emitted (findRoute R s req res) =
          [(MethodNotAllowed (allowed_methods R req (routes s)), [Default])]"
    using fp by (simp add: ev rc)
  show "calls (f_res (findRoute R s req res)) =
          calls res @
          [Header ''Allow'' (join '', '' (allowed_methods R req (routes s))),
           Send (if req_method req = ''OPTIONS'' then Status 200
                 else Failure (BadMethodError
                        (req_url req @ '' does not support '' @ req_method req)))]"
    using fp by (simp add: ev rc d)
qed

theorem default_405_response_witness:
  "calls (f_res (findRoute literal_proto
      ((new_Server [] None None False :: (string, string, unit) server)
         \<lparr>routes := [new_Route 0 ''GET'' (Some ''/x'') [] None None False,
                      new_Route 1 ''POST'' (Some ''/x'') [] None None False]\<rparr>)
      (plain_request ''DELETE'' ''/x'') (fresh_response :: unit response)))
   = [Header ''Allow'' ''GET, POST'',
      Send (Failure (BadMethodError ''/x does not support DELETE''))]
   \<and> calls (f_res (findRoute (literal_proto\<lparr>matchesMethod := \<lambda>r req. method r = req_method req\<rparr>)
      ((new_Server [] None None False :: (string, string, unit) server)
         \<lparr>routes := [new_Route 0 ''GET'' (Some ''/x'') [] None None False,
                      new_Route 1 ''POST'' (Some ''/x'') [] None None False]\<rparr>)
      (plain_request ''OPTIONS'' ''/x'') (fresh_response :: unit response)))
   = [Header ''Allow'' ''GET, POST'', Send (Status 200)]"
proof -
  let ?E = "literal_proto\<lparr>matchesMethod := \<lambda>r req. method r = req_method req\<rparr> :: string route_proto"
  let ?rs = "[new_Route 0 ''GET'' (Some ''/x'') [] None None False,
              new_Route 1 ''POST'' (Some ''/x'') [] None None False :: string route]"
  let ?s = "(new_Server [] None None False :: (string, string, unit) server)\<lparr>routes := ?rs\<rparr>"
  let ?d = "plain_request ''DELETE'' ''/x''"
  let ?o = "plain_request ''OPTIONS'' ''/x''"
  have E: "matchesUrl ?E = matchesUrl literal_proto" "matchesVersion ?E = matchesVersion literal_proto"
    "matchesMethod ?E r req = (method r = req_method req)" for r req
    by simp_all
  have ms: "allowed_methods literal_proto ?d (routes ?s) = [''GET'', ''POST'']"
    "allowed_methods ?E ?o (routes ?s) = [''GET'', ''POST'']"
    by (simp_all add: allowed_methods_def method_mismatch_def literal_simps E new_Route_def
        plain_request_def first_occurrences_def)
  have hd: "find (full_match literal_proto ?d) (routes ?s) = None \<and>
        acceptable_versions literal_proto ?d (routes ?s) = [] \<and>
        allowed_methods literal_proto ?d (routes ?s) \<noteq> [] \<and>
        listeners_of ?s ''MethodNotAllowed'' = []"
    using ms
    by (simp add: full_match_def acceptable_versions_def version_mismatch_def literal_simps
          new_Route_def plain_request_def first_occurrences_def listeners_of_def new_Server_def)
  have ho: "find (full_match ?E ?o) (routes ?s) = None \<and>
        acceptable_versions ?E ?o (routes ?s) = [] \<and>
        allowed_methods ?E ?o (routes ?s) \<noteq> [] \<and>
        listeners_of ?s ''MethodNotAllowed'' = []"
    using ms
    by (simp add: full_match_def acceptable_versions_def version_mismatch_def literal_simps E
          new_Route_def plain_request_def first_occurrences_def listeners_of_def new_Server_def)
  note wd = default_405_response [of ?d "fresh_response :: unit response" "[]" literal_proto ?s,
      THEN conjunct2, rule_format, OF hd, THEN conjunct2]
  note wo = default_405_response [of ?o "fresh_response :: unit response" "[]" ?E ?s,
      THEN conjunct2, rule_format, OF ho, THEN conjunct2]
  from wd wo ms show ?thesis
    by (simp add: fresh_response_def plain_request_def)
qed

section \<open>Resolution and the route table\<close>





section \<open>Registration\<close>




section \<open>Route removal\<close>

lemma rm_loop_first:
  assumes "\<forall>x\<in>set earlier. \<not> rm_matches x a" "rm_matches r a"
  shows "rm_loop a (earlier @ r # later) = Some (earlier @ later)"
  using assms by (induction earlier) simp_all

lemma rm_loop_none:
  assumes "\<forall>x\<in>set rs. \<not> rm_matches x a"
  shows "rm_loop a rs = None"
  using assms by (induction rs) simp_all

text \<open>
  C7: \<open>rm\<close> with a name splices out the first route of that name and returns
  true, and returns false, changing nothing, when no route has the name. So when
  exactly one route has the name, the first call returns true and removes it, and
  a second call on the server it leaves returns false.
\<close>

theorem rm_by_name:
  "(\<forall>earlier r later.
      routes s = earlier @ r # later \<and> (\<forall>x\<in>set earlier. name x \<noteq> n) \<and> name r = n \<longrightarrow>
        rm s (By_name n) = Inr (s\<lparr>routes := earlier @ later\<rparr>, True)) \<and>
   ((\<forall>x\<in>set (routes s). name x \<noteq> n) \<longrightarrow> rm s (By_name n) = Inr (s, False)) \<and>
   (length (filter (\<lambda>r. name r = n) (routes s)) = 1 \<longrightarrow>
      (\<exists>s1. rm s (By_name n) = Inr (s1, True) \<and> rm s1 (By_name n) = Inr (s1, False) \<and>
            routes s1 = filter (\<lambda>r. name r \<noteq> n) (routes s)))"
proof (intro conjI allI impI)
  fix earlier r later
  assume "routes s = earlier @ r # later \<and> (\<forall>x\<in>set earlier. name x \<noteq> n) \<and> name r = n"
  then show "rm s (By_name n) = Inr (s\<lparr>routes := earlier @ later\<rparr>, True)"
    by (simp add: rm_def rm_loop_first)
next
  assume "\<forall>x\<in>set (routes s). name x \<noteq> n"
  then show "rm s (By_name n) = Inr (s, False)"
    by (simp add: rm_def rm_loop_none)
next
  assume one: "length (filter (\<lambda>r. name r = n) (routes s)) = 1"
  have "\<exists>x\<in>set (routes s). name x = n"
  proof (rule ccontr)
    assume "\<not> (\<exists>x\<in>set (routes s). name x = n)"
    then have "filter (\<lambda>r. name r = n) (routes s) = []"
      by (simp add: filter_empty_conv)
    with one show False by simp
  qed
  from split_list_first_prop [OF this]
  obtain earlier r later where rs: "routes s = earlier @ r # later"
    and r: "name r = n" and e: "\<forall>x\<in>set earlier. name x \<noteq> n"
    by blast
  from one have "filter (\<lambda>r. name r = n) later = []"
    using e r by (simp add: rs filter_False)
  then have l: "\<forall>x\<in>set later. name x \<noteq> n"
    by (simp add: filter_empty_conv)
  have f: "filter (\<lambda>r. name r \<noteq> n) (routes s) = earlier @ later"
    using e l r by (simp add: rs)
  have a: "rm s (By_name n) = Inr (s\<lparr>routes := earlier @ later\<rparr>, True)"
    using e r by (simp add: rm_def rm_loop_first rs)
  have b: "rm (s\<lparr>routes := earlier @ later\<rparr>) (By_name n) = Inr (s\<lparr>routes := earlier @ later\<rparr>, False)"
  proof -
    have "\<forall>x\<in>set (earlier @ later). \<not> rm_matches x (By_name n)"
      using e l by auto
    from rm_loop_none [OF this] show ?thesis
      by (simp add: rm_def)
  qed
  show "\<exists>s1. rm s (By_name n) = Inr (s1, True) \<and> rm s1 (By_name n) = Inr (s1, False) \<and>
            routes s1 = filter (\<lambda>r. name r \<noteq> n) (routes s)"
    using a b f by auto
qed

theorem rm_by_name_witness:
  "rm ((new_Server [] None None False :: (string, string, unit) server)
         \<lparr>routes := [new_Route 0 ''GET'' (Some ''/a'') [] (Some ''a'') None False,
                      new_Route 1 ''GET'' (Some ''/b'') [] (Some ''b'') None False,
                      new_Route 2 ''GET'' (Some ''/c'') [] (Some ''c'') None False]\<rparr>)
      (By_name ''b'')
   = Inr ((new_Server [] None None False)
            \<lparr>routes := [new_Route 0 ''GET'' (Some ''/a'') [] (Some ''a'') None False,
                         new_Route 2 ''GET'' (Some ''/c'') [] (Some ''c'') None False]\<rparr>, True)
   \<and> rm ((new_Server [] None None False :: (string, string, unit) server)
         \<lparr>routes := [new_Route 0 ''GET'' (Some ''/a'') [] (Some ''a'') None False,
                      new_Route 2 ''GET'' (Some ''/c'') [] (Some ''c'') None False]\<rparr>)
      (By_name ''b'')
   = Inr ((new_Server [] None None False)
            \<lparr>routes := [new_Route 0 ''GET'' (Some ''/a'') [] (Some ''a'') None False,
                         new_Route 2 ''GET'' (Some ''/c'') [] (Some ''c'') None False]\<rparr>, False)
   \<and> (\<exists>s1. rm ((new_Server [] None None False :: (string, string, unit) server)
         \<lparr>routes := [new_Route 0 ''GET'' (Some ''/a'') [] (Some ''a'') None False,
                      new_Route 1 ''GET'' (Some ''/b'') [] (Some ''b'') None False,
                      new_Route 2 ''GET'' (Some ''/c'') [] (Some ''c'') None False]\<rparr>)
      (By_name ''b'') = Inr (s1, True) \<and> rm s1 (By_name ''b'') = Inr (s1, False))"
proof -
  let ?a = "new_Route 0 ''GET'' (Some ''/a'') [] (Some ''a'') None False :: string route"
  let ?b = "new_Route 1 ''GET'' (Some ''/b'') [] (Some ''b'') None False :: string route"
  let ?c = "new_Route 2 ''GET'' (Some ''/c'') [] (Some ''c'') None False :: string route"
  let ?s = "(new_Server [] None None False :: (string, string, unit) server)\<lparr>routes := [?a, ?b, ?c]\<rparr>"
  let ?t = "(new_Server [] None None False :: (string, string, unit) server)\<lparr>routes := [?a, ?c]\<rparr>"
  have h1: "routes ?s = [?a] @ ?b # [?c] \<and> (\<forall>x\<in>set [?a]. name x \<noteq> ''b'') \<and> name ?b = ''b''"
    by (simp add: new_Route_def)
  have h2: "\<forall>x\<in>set (routes ?t). name x \<noteq> ''b''"
    by (simp add: new_Route_def)
  have h3: "length (filter (\<lambda>r. name r = ''b'') (routes ?s)) = 1"
    by (simp add: new_Route_def)
  have first: "rm ?s (By_name ''b'') = Inr (?t, True)"
    using rm_by_name [of ?s "''b''", THEN conjunct1, rule_format, OF h1] by simp
  have second: "rm ?t (By_name ''b'') = Inr (?t, False)"
    using rm_by_name [of ?t "''b''", THEN conjunct2, THEN conjunct1, THEN mp, OF h2] .
  have twice: "\<exists>s1. rm ?s (By_name ''b'') = Inr (s1, True) \<and> rm s1 (By_name ''b'') = Inr (s1, False)"
    using rm_by_name [of ?s "''b''", THEN conjunct2, THEN conjunct2, rule_format, OF h3] by blast
  from first second twice show ?thesis
    by (intro conjI)
qed

section \<open>The pre-chain\<close>

lemma series_append:
  assumes "series call earlier req res = Inr (Proceed req1 res1)"
  shows "series call (earlier @ hs) req res = series call hs req1 res1"
  using assms
proof (induction call earlier req res rule: series.induct)
  case (1 call req res)
  then show ?case by simp
next
  case (2 call f hs' req res)
  then show ?case by (cases "call f req res") simp_all
qed simp_all

text \<open>
  C4: when the handlers of the pre-chain before \<open>f\<close> all call back without an
  error and \<open>f\<close> calls back with the error \<open>err\<close>, the dispatcher sends
  \<open>err\<close> on the response and stops: \<open>_findRoute\<close> is not called, so no
  route is run, no event is emitted, and the request is as \<open>f\<close> left it, its
  params included.
\<close>

theorem pre_chain_error_aborts:
  assumes "preChain s = earlier @ Func f # later"
    and "series call earlier req res = Inr (Proceed req1 res1)"
    and "call f req1 res1 = Fail err req2 res2"
  shows "onRequest R call s req res =
           Inr \<lparr>outcome = Error_sent err, out_req = req2,
                out_res = res2\<lparr>calls := calls res2 @ [Send (Failure (Raised err))]\<rparr>,
                out_server = s\<rparr>"
  using assms
  by (simp add: onRequest_def series_append send_def)


theorem pre_chain_error_aborts_witness:
  "onRequest literal_proto
     (\<lambda>f req res. if f = ''deny'' then Fail ''denied'' req res else Proceed req res)
     ((new_Server [] None None False :: (string, string, unit) server)
        \<lparr>preChain := [Func ''ok'', Func ''deny'', Func ''never''],
         routes := [new_Route 0 ''GET'' (Some ''/x'') [Func ''show''] None None False]\<rparr>)
     (plain_request ''GET'' ''/x'') fresh_response
   = Inr \<lparr>outcome = Error_sent ''denied'', out_req = plain_request ''GET'' ''/x'',
          out_res = fresh_response\<lparr>calls := [Send (Failure (Raised ''denied''))]\<rparr>,
          out_server = (new_Server [] None None False)
            \<lparr>preChain := [Func ''ok'', Func ''deny'', Func ''never''],
             routes := [new_Route 0 ''GET'' (Some ''/x'') [Func ''show''] None None False]\<rparr>\<rparr>"
proof -
  let ?call = "\<lambda>f req (res :: string response).
      if f = ''deny'' then Fail ''denied'' req res else Proceed req res"
  let ?s = "(new_Server [] None None False :: (string, string, unit) server)
        \<lparr>preChain := [Func ''ok'', Func ''deny'', Func ''never''],
         routes := [new_Route 0 ''GET'' (Some ''/x'') [Func ''show''] None None False]\<rparr>"
  let ?q = "plain_request ''GET'' ''/x''"
  have h1: "preChain ?s = [Func ''ok''] @ Func ''deny'' # [Func ''never'']"
    by simp
  have h2: "series ?call [Func ''ok''] ?q fresh_response = Inr (Proceed ?q fresh_response)"
    by simp
  have h3: "?call ''deny'' ?q fresh_response = Fail ''denied'' ?q fresh_response"
    by simp
  from pre_chain_error_aborts [of ?s "[Func ''ok'']" "''deny''" "[Func ''never'']" ?call ?q
      fresh_response ?q fresh_response "''denied''" ?q fresh_response literal_proto, OF h1 h2 h3]
  show ?thesis
    by (simp add: fresh_response_def)
qed

end
